theory Spec2Isabelle
  imports Main "HOL-Library.Log_Nat"
begin

section \<open>Strings, integers and prices\<close>

text \<open>
  The bot is a single Python module, \<^verbatim>\<open>bot.py\<close>. This theory embeds the functions
  of its subscription and billing core: the price helpers, the promo code
  arithmetic, \<^verbatim>\<open>activate_subscription\<close>, the manual payment review and the
  removal sweep.

  Strings are lists of 8-bit characters and stand for ASCII text. Python
  integers are unbounded, so they are \<^typ>\<open>int\<close>. The interpreter's optional limit
  on the number of digits of an integer conversion is a setting of the
  interpreter, not of the program, and is not part of the model.
\<close>

text \<open>
  The exceptions that leave a modelled function: three of Python's own, and
  \<open>ApiException\<close> for whatever a call to the chat platform raises.
\<close>

datatype py_error = ZeroDivisionError | OverflowError | ValueError | IndexError | ApiException

definition is_digit :: "char \<Rightarrow> bool" where
  "is_digit c = (48 \<le> (of_char c :: nat) \<and> (of_char c :: nat) \<le> 57)"

definition digit_val :: "char \<Rightarrow> nat" where
  "digit_val c = of_char c - 48"

definition digit_char :: "nat \<Rightarrow> char" where
  "digit_char d = char_of (48 + d)"

text \<open>\<^verbatim>\<open>str(n)\<close> for a natural number: its decimal digits, most significant first.\<close>

fun str_nat :: "nat \<Rightarrow> string" where
  "str_nat n = (if n < 10 then [digit_char n] else str_nat (n div 10) @ [digit_char (n mod 10)])"

declare str_nat.simps [simp del]

text \<open>The format field \<^verbatim>\<open>{x}\<close> of an f-string, for an integer.\<close>

definition str_int :: "int \<Rightarrow> string" where
  "str_int i = (if i < 0 then CHR ''-'' # str_nat (nat (- i)) else str_nat (nat i))"

text \<open>
  The format field \<^verbatim>\<open>{x:02d}\<close>: zero padding to width 2, the sign counted in the
  width.
\<close>

definition format_02d :: "int \<Rightarrow> string" where
  "format_02d i =
     (if i < 0 then CHR ''-'' # str_nat (nat (- i))
      else replicate (2 - length (str_nat (nat i))) (CHR ''0'') @ str_nat (nat i))"

definition digits_value :: "string \<Rightarrow> nat" where
  "digits_value ds = foldl (\<lambda>acc c. acc * 10 + digit_val c) 0 ds"

text \<open>
  \<^verbatim>\<open>str.strip()\<close> removes the characters for which \<^verbatim>\<open>str.isspace\<close> holds; among
  ASCII characters these are 9 to 13 and 28 to 32. \<^verbatim>\<open>int(s)\<close> on an ASCII string
  skips only 9 to 13 and 32.
\<close>

definition is_space :: "char \<Rightarrow> bool" where
  "is_space c = (let n = (of_char c :: nat) in (9 \<le> n \<and> n \<le> 13) \<or> (28 \<le> n \<and> n \<le> 32))"

definition is_space_ascii :: "char \<Rightarrow> bool" where
  "is_space_ascii c = (let n = (of_char c :: nat) in (9 \<le> n \<and> n \<le> 13) \<or> n = 32)"

definition strip_by :: "(char \<Rightarrow> bool) \<Rightarrow> string \<Rightarrow> string" where
  "strip_by ws s = rev (dropWhile ws (rev (dropWhile ws s)))"

definition py_strip :: "string \<Rightarrow> string" where
  "py_strip s = strip_by is_space s"

text \<open>
  The digits of an integer literal accepted by \<^verbatim>\<open>int(s)\<close>: at least one digit,
  single underscores allowed between digits only. The flag tells whether the
  previous character was a digit.
\<close>

fun int_body_ok :: "bool \<Rightarrow> string \<Rightarrow> bool" where
  "int_body_ok prev [] = prev"
| "int_body_ok prev (c # cs) =
     (if is_digit c then int_body_ok True cs
      else if c = CHR ''_'' \<and> prev then int_body_ok False cs
      else False)"

definition int_body :: "string \<Rightarrow> nat option" where
  "int_body b = (if int_body_ok False b
                 then Some (digits_value (filter (\<lambda>c. c \<noteq> CHR ''_'') b)) else None)"

text \<open>\<^verbatim>\<open>int(s)\<close> in base 10; \<open>None\<close> stands for the \<^verbatim>\<open>ValueError\<close> it raises.\<close>

definition py_int :: "string \<Rightarrow> int option" where
  "py_int s =
     (case strip_by is_space_ascii s of
        [] \<Rightarrow> None
      | c # cs \<Rightarrow>
          if c = CHR ''-'' then map_option (\<lambda>n. - int n) (int_body cs)
          else if c = CHR ''+'' then map_option int (int_body cs)
          else map_option int (int_body (c # cs)))"

text \<open>\<^verbatim>\<open>s.split(sep)\<close> for a separator of one character.\<close>

fun py_split :: "char \<Rightarrow> string \<Rightarrow> string list" where
  "py_split sep [] = [[]]"
| "py_split sep (c # cs) =
     (if c = sep then [] # py_split sep cs
      else (case py_split sep cs of
              [] \<Rightarrow> [[c]]
            | p # ps \<Rightarrow> (c # p) # ps))"

definition ljust :: "nat \<Rightarrow> char \<Rightarrow> string \<Rightarrow> string" where
  "ljust n c s = s @ replicate (n - length s) c"

text \<open>
  \<^verbatim>\<open>price_str_from_cents(cents)\<close>. The configuration constant \<^verbatim>\<open>CURRENCY\<close> is read
  from the environment, so it is a parameter. Python's \<^verbatim>\<open>//\<close> and \<^verbatim>\<open>%\<close> round
  towards minus infinity, as \<open>div\<close> and \<open>mod\<close> on \<^typ>\<open>int\<close> do.
\<close>

definition price_str_from_cents :: "string \<Rightarrow> int option \<Rightarrow> string" where
  "price_str_from_cents CURRENCY cents =
     (let c = (case cents of None \<Rightarrow> 0 | Some v \<Rightarrow> v)
      in str_int (c div 100) @ ''.'' @ format_02d (c mod 100) @ '' '' @ CURRENCY)"

text \<open>
  \<^verbatim>\<open>cents_from_str(s)\<close>. Every exception inside the \<^verbatim>\<open>try\<close> block (a failed
  \<^verbatim>\<open>int\<close>, an index out of range) makes the function return \<^verbatim>\<open>None\<close>.
\<close>

definition cents_from_str :: "string \<Rightarrow> int option" where
  "cents_from_str s0 =
     (let s = py_strip s0 in
      if CHR ''.'' \<in> set s then
        (case py_split (CHR ''.'') s of
           p0 # p1 # _ \<Rightarrow>
             (case py_int p0 of
                None \<Rightarrow> None
              | Some whole \<Rightarrow>
                  (let frac = ljust 2 (CHR ''0'') (take 2 p1) in
                   case py_int frac of
                     None \<Rightarrow> None
                   | Some f \<Rightarrow> Some (whole * 100 + f)))
         | _ \<Rightarrow> None)
      else map_option (\<lambda>v. v * 100) (py_int s))"

section \<open>Integer division through a float\<close>

text \<open>
  \<^verbatim>\<open>apply_promo_code\<close> computes \<^verbatim>\<open>int(price_cents * discount_percent / 100)\<close>. The
  operator \<^verbatim>\<open>/\<close> on two Python integers returns a binary64 float, the quotient
  correctly rounded (to nearest, ties to even), and \<^verbatim>\<open>int\<close> truncates the float
  towards zero. A finite float is a pair of a mantissa and an exponent,
  standing for \<open>mantissa * 2 ^ exponent\<close>.
\<close>

datatype pyfloat = Float (mantissa: int) (exponent: int)

text \<open>The quotient of a non-negative by a positive integer, rounded to the nearest integer, ties to even.\<close>

definition round_half_even_div :: "int \<Rightarrow> int \<Rightarrow> int" where
  "round_half_even_div num den =
     (let q = num div den; r = num mod den
      in if 2 * r < den then q
         else if den < 2 * r then q + 1
         else if even q then q else q + 1)"

text \<open>
  The exponent of the last mantissa bit of \<open>a / b\<close> for positive \<open>a\<close>, \<open>b\<close>: with
  \<open>fl\<close> the integer part of the binary logarithm of the quotient, the 53-bit
  mantissa ends at \<open>fl - 52\<close>, and never below the subnormal exponent \<open>-1074\<close>.
\<close>

definition binary64_exponent :: "int \<Rightarrow> int \<Rightarrow> int" where
  "binary64_exponent a b =
     (let d = bitlen a - bitlen b;
          fl = (if (if 0 \<le> d then b * 2 ^ nat d \<le> a else b \<le> a * 2 ^ nat (- d))
                then d else d - 1)
      in max (fl - 52) (- 1074))"

definition scaled_quotient :: "int \<Rightarrow> int \<Rightarrow> int \<Rightarrow> int" where
  "scaled_quotient a b e =
     (if 0 \<le> e then round_half_even_div a (b * 2 ^ nat e)
      else round_half_even_div (a * 2 ^ nat (- e)) b)"

text \<open>\<^verbatim>\<open>n / m\<close> on integers, with the two exceptions it can raise.\<close>

definition py_truediv :: "int \<Rightarrow> int \<Rightarrow> py_error + pyfloat" where
  "py_truediv n m =
     (if m = 0 then Inl ZeroDivisionError
      else if n = 0 then Inr (Float 0 0)
      else
        (let a = \<bar>n\<bar>; b = \<bar>m\<bar>;
             e = binary64_exponent a b;
             q = scaled_quotient a b e
         in if 0 \<le> e \<and> 2 ^ 1024 \<le> q * 2 ^ nat e then Inl OverflowError
            else Inr (Float (if (n < 0) = (m < 0) then q else - q) e)))"

text \<open>\<^verbatim>\<open>int(f)\<close> on a finite float: truncation towards zero.\<close>

definition py_int_of_float :: "pyfloat \<Rightarrow> int" where
  "py_int_of_float f =
     (if 0 \<le> exponent f then mantissa f * 2 ^ nat (exponent f)
      else sgn (mantissa f) * (\<bar>mantissa f\<bar> div 2 ^ nat (- exponent f)))"

text \<open>\<^verbatim>\<open>int(n / m)\<close>.\<close>

definition py_int_truediv :: "int \<Rightarrow> int \<Rightarrow> py_error + int" where
  "py_int_truediv n m =
     (case py_truediv n m of Inl err \<Rightarrow> Inl err | Inr f \<Rightarrow> Inr (py_int_of_float f))"

section \<open>Promo codes\<close>

text \<open>
  A row of \<^verbatim>\<open>promo_codes\<close> as \<^verbatim>\<open>get_promo_code\<close> selects it. The integer columns
  other than the key accept \<^verbatim>\<open>NULL\<close>.
\<close>

record promo_data =
  promo_id :: int
  code :: string
  discount_percent :: "int option"
  discount_fixed_cents :: "int option"
  is_active :: "int option"
  used_count :: "int option"
  max_uses :: "int option"
  expires_ts :: "int option"

text \<open>
  The truth value of a nullable integer in an \<^verbatim>\<open>if\<close>: \<^verbatim>\<open>None\<close> and \<open>0\<close> are
  false. The result keeps the value when it is true.
\<close>

definition truthy_value :: "int option \<Rightarrow> int option" where
  "truthy_value v = (case v of None \<Rightarrow> None | Some n \<Rightarrow> if n = 0 then None else Some n)"

text \<open>
  The three messages of \<^verbatim>\<open>apply_promo_code\<close>, each with the values its f-string
  interpolates: the code and the percentage, the code and the formatted fixed
  discount, and the error text.
\<close>

datatype promo_message =
    PromoPercentApplied string int
  | PromoFixedApplied string string
  | PromoApplyError

definition apply_promo_code :: "string \<Rightarrow> int \<Rightarrow> promo_data \<Rightarrow> py_error + (int \<times> promo_message)" where
  "apply_promo_code CURRENCY price_cents promo =
     (case truthy_value (discount_percent promo) of
        Some percent \<Rightarrow>
          (case py_int_truediv (price_cents * percent) 100 of
             Inl err \<Rightarrow> Inl err
           | Inr discount \<Rightarrow>
               Inr (max 0 (price_cents - discount), PromoPercentApplied (code promo) percent))
      | None \<Rightarrow>
          (case truthy_value (discount_fixed_cents promo) of
             Some fixed \<Rightarrow>
               Inr (max 0 (price_cents - fixed),
                    PromoFixedApplied (code promo) (price_str_from_cents CURRENCY (Some fixed)))
           | None \<Rightarrow> Inr (price_cents, PromoApplyError)))"

section \<open>Dates and clocks\<close>

text \<open>
  A naive \<^verbatim>\<open>datetime\<close> value. The constructor \<^verbatim>\<open>datetime(y, m, d, H, M, S)\<close>
  raises \<^verbatim>\<open>ValueError\<close> outside the ranges below.
\<close>

record datetime =
  year :: int
  month :: int
  day :: int
  hour :: int
  minute :: int
  second :: int

definition is_leap :: "int \<Rightarrow> bool" where
  "is_leap y = (y mod 4 = 0 \<and> (y mod 100 \<noteq> 0 \<or> y mod 400 = 0))"

definition days_in_month :: "int \<Rightarrow> int \<Rightarrow> int" where
  "days_in_month y m =
     (if m = 2 then (if is_leap y then 29 else 28)
      else if m = 4 \<or> m = 6 \<or> m = 9 \<or> m = 11 then 30 else 31)"

definition py_datetime :: "int \<Rightarrow> int \<Rightarrow> int \<Rightarrow> int \<Rightarrow> int \<Rightarrow> int \<Rightarrow> py_error + datetime" where
  "py_datetime y mo d h mi s =
     (if 1 \<le> y \<and> y \<le> 9999 \<and> 1 \<le> mo \<and> mo \<le> 12 \<and> 1 \<le> d \<and> d \<le> days_in_month y mo
         \<and> 0 \<le> h \<and> h \<le> 23 \<and> 0 \<le> mi \<and> mi \<le> 59 \<and> 0 \<le> s \<and> s \<le> 59
      then Inr \<lparr>year = y, month = mo, day = d, hour = h, minute = mi, second = s\<rparr>
      else Inl ValueError)"

text \<open>
  \<^verbatim>\<open>activate_subscription\<close> reads the clock three times: \<^verbatim>\<open>now_local()\<close> inside
  \<^verbatim>\<open>get_current_period()\<close>, then \<^verbatim>\<open>int(time.time())\<close>, then \<^verbatim>\<open>now_local()\<close>
  again. The three readings are inputs of the model; nothing relates them.
\<close>

record clock =
  period_reading :: datetime
  time_reading :: int
  now_reading :: datetime

definition get_current_period :: "datetime \<Rightarrow> int \<times> int" where
  "get_current_period now = (month now, year now)"

section \<open>Tables\<close>

text \<open>
  The rows of the four tables the modelled functions read or write, with the
  columns these functions use. A column that accepts \<^verbatim>\<open>NULL\<close> and that the
  program itself leaves empty somewhere is an option; the columns of
  \<^verbatim>\<open>subscriptions\<close> and \<^verbatim>\<open>manual_payments\<close> that every \<^verbatim>\<open>INSERT\<close> of the program
  fills with a value are not.
\<close>

record plan =
  plan_id :: int
  price_cents :: "int option"
  title :: "string option"
  plan_group_id :: "int option"

record subscription =
  sub_id :: int
  sub_user_id :: int
  sub_plan_id :: int
  start_ts :: int
  end_ts :: int
  active :: int
  invite_link :: "string option"
  removed :: int
  sub_group_id :: "int option"
  payment_type :: "string option"
  current_period_month :: int
  current_period_year :: int
  part_paid :: string
  next_payment_date :: "int option"
  last_notification_ts :: "int option"

record user_row =
  user_id :: int
  username :: "string option"

record manual_payment =
  mp_id :: int
  mp_user_id :: int
  mp_plan_id :: int
  amount_cents :: "int option"
  status :: string
  admin_id :: "int option"
  reviewed_ts :: "int option"
  mp_payment_type :: "string option"

section \<open>The chat platform\<close>

text \<open>
  The three results of \<^verbatim>\<open>activate_subscription\<close>: its two failure texts and the
  invite link, which is \<^verbatim>\<open>None\<close> when the link could not be created.
\<close>

datatype activation_text = PlanNotFoundText | GroupNotSetText | InviteLink "string option"

text \<open>
  The texts sent by the modelled handlers, each with the values its f-string
  interpolates.
\<close>

datatype message =
    AccessSuspended "string option"
  | PaymentApproved "string option" activation_text
  | PaymentRejected "string option"

datatype answer =
    AccessDenied
  | TicketNotFoundOrProcessed
  | TicketApproved
  | TicketRejected
  | ActivationFailed activation_text

datatype caption =
    ApprovedCaption "string option" int "string option"
  | RejectedCaption "string option" int "string option"

datatype api_call =
    UnbanChatMember int int
  | CreateChatInviteLink int
  | BanChatMember int int int
  | SendMessage int message
  | AnswerCallbackQuery answer
  | EditMessageCaption caption

text \<open>
  The platform is outside the program. Whether a call raises, and what link an
  invite request returns, may depend on the call and on how many calls were
  made before it.
\<close>

record platform =
  raises :: "nat \<Rightarrow> api_call \<Rightarrow> bool"
  invite_link_result :: "nat \<Rightarrow> int \<Rightarrow> string option"

text \<open>The database and the calls made to the platform so far, oldest first.\<close>

record world =
  plans :: "plan list"
  subscriptions :: "subscription list"
  users :: "user_row list"
  manual_payments :: "manual_payment list"
  calls :: "api_call list"

text \<open>A platform call: whether it raised, and the world with the call recorded.\<close>

definition call_api :: "platform \<Rightarrow> world \<Rightarrow> api_call \<Rightarrow> bool \<times> world" where
  "call_api pf w c = (raises pf (length (calls w)) c, w\<lparr>calls := calls w @ [c]\<rparr>)"

text \<open>
  \<^verbatim>\<open>create_chat_invite_link_one_time\<close> posts the request for a link of one use that
  expires after seven days. It catches every exception and returns \<^verbatim>\<open>None\<close> when
  the request fails.
\<close>

definition create_chat_invite_link_one_time :: "platform \<Rightarrow> world \<Rightarrow> int \<Rightarrow> string option \<times> world" where
  "create_chat_invite_link_one_time pf w chat_id =
     (invite_link_result pf (length (calls w)) chat_id,
      w\<lparr>calls := calls w @ [CreateChatInviteLink chat_id]\<rparr>)"

section \<open>Activation\<close>

text \<open>
  \<^verbatim>\<open>SELECT ... WHERE user_id=? AND plan_id=? AND active=1 ORDER BY id DESC LIMIT 1\<close>:
  the matching row of greatest id.
\<close>

fun last_by_id :: "subscription list \<Rightarrow> subscription option" where
  "last_by_id [] = None"
| "last_by_id (s # ss) =
     (case last_by_id ss of
        None \<Rightarrow> Some s
      | Some t \<Rightarrow> if sub_id s < sub_id t then Some t else Some s)"

definition active_rows :: "subscription list \<Rightarrow> int \<Rightarrow> int \<Rightarrow> subscription list" where
  "active_rows subs uid pid =
     filter (\<lambda>s. sub_user_id s = uid \<and> sub_plan_id s = pid \<and> active s = 1) subs"

definition existing_active_sub :: "subscription list \<Rightarrow> int \<Rightarrow> int \<Rightarrow> subscription option" where
  "existing_active_sub subs uid pid = last_by_id (active_rows subs uid pid)"

text \<open>\<^verbatim>\<open>UPDATE subscriptions SET ... WHERE id=?\<close>.\<close>

definition update_sub :: "int \<Rightarrow> (subscription \<Rightarrow> subscription) \<Rightarrow> subscription list \<Rightarrow> subscription list" where
  "update_sub sid f subs = map (\<lambda>s. if sub_id s = sid then f s else s) subs"

text \<open>The key of an inserted row: \<^verbatim>\<open>AUTOINCREMENT\<close> gives an id above every id in the table.\<close>

definition next_sub_id :: "subscription list \<Rightarrow> int" where
  "next_sub_id subs = foldr (\<lambda>s m. max (sub_id s) m) subs 0 + 1"

text \<open>
  The test of \<^verbatim>\<open>activate_subscription\<close> for a row that is paid for the current
  period: the period columns equal the current period, \<^verbatim>\<open>part_paid\<close> is
  \<^verbatim>\<open>'full'\<close> and \<^verbatim>\<open>end_ts\<close> is after the current time.
\<close>

definition paid_current :: "int \<Rightarrow> int \<Rightarrow> int \<Rightarrow> subscription \<Rightarrow> bool" where
  "paid_current current_month current_year now_ts s =
     (current_period_month s = current_month \<and> current_period_year s = current_year
      \<and> part_paid s = ''full'' \<and> now_ts < end_ts s)"

text \<open>The month after the month of \<open>now\<close>, as the function computes it.\<close>

definition next_period :: "datetime \<Rightarrow> int \<times> int" where
  "next_period now = (if month now = 12 then (1, year now + 1) else (month now + 1, year now))"

text \<open>
  \<^verbatim>\<open>target_group_id = plan_group_id if plan_group_id else group_id\<close>, and the test
  \<^verbatim>\<open>if not target_group_id\<close>: \<open>None\<close> when neither the plan nor the caller gives
  a group.
\<close>

definition target_group :: "int option \<Rightarrow> int option \<Rightarrow> int option" where
  "target_group pgid gid = (case truthy_value pgid of Some g \<Rightarrow> Some g | None \<Rightarrow> truthy_value gid)"

text \<open>
  The three statements that write the row. The first \<^verbatim>\<open>UPDATE\<close> sets
  \<^verbatim>\<open>invite_link\<close> and \<^verbatim>\<open>last_notification_ts\<close> only; the second sets the period,
  the dates, the link and the flags; the \<^verbatim>\<open>INSERT\<close> fills every column but the
  key.
\<close>

definition refresh_link :: "string option \<Rightarrow> subscription \<Rightarrow> subscription" where
  "refresh_link link s = s\<lparr>invite_link := link, last_notification_ts := None\<rparr>"

definition renew_row ::
  "int \<Rightarrow> int \<Rightarrow> int \<Rightarrow> int \<Rightarrow> string option \<Rightarrow> string option \<Rightarrow> subscription \<Rightarrow> subscription" where
  "renew_row current_month current_year now_ts new_end_ts link ptype s =
     s\<lparr>current_period_month := current_month,
       current_period_year := current_year,
       part_paid := ''full'',
       start_ts := now_ts,
       end_ts := new_end_ts,
       invite_link := link,
       last_notification_ts := None,
       active := 1,
       removed := 0,
       payment_type := ptype\<rparr>"

definition new_row ::
  "int \<Rightarrow> int \<Rightarrow> int \<Rightarrow> int \<Rightarrow> int \<Rightarrow> string option \<Rightarrow> int \<Rightarrow> string option \<Rightarrow> int \<Rightarrow> int
     \<Rightarrow> subscription" where
  "new_row new_id uid pid now_ts new_end_ts link target_group_id ptype current_month current_year =
     \<lparr>sub_id = new_id,
      sub_user_id = uid,
      sub_plan_id = pid,
      start_ts = now_ts,
      end_ts = new_end_ts,
      active = 1,
      invite_link = link,
      removed = 0,
      sub_group_id = Some target_group_id,
      payment_type = ptype,
      current_period_month = current_month,
      current_period_year = current_year,
      part_paid = ''full'',
      next_payment_date = Some new_end_ts,
      last_notification_ts = None\<rparr>"

text \<open>
  The write that ends \<^verbatim>\<open>activate_subscription\<close>: on an existing active row that
  is paid for the current period, the first \<^verbatim>\<open>UPDATE\<close>; on any other existing
  active row, the second; with no active row, the \<^verbatim>\<open>INSERT\<close>.
\<close>

definition store_subscription ::
  "subscription option \<Rightarrow> int \<Rightarrow> int \<Rightarrow> int \<Rightarrow> int \<Rightarrow> string option \<Rightarrow> int \<Rightarrow> string option
     \<Rightarrow> int \<Rightarrow> int \<Rightarrow> subscription list \<Rightarrow> subscription list" where
  "store_subscription existing_sub current_month current_year now_ts new_end_ts link target_group_id
      ptype uid pid subs =
     (case existing_sub of
        Some ex \<Rightarrow>
          if paid_current current_month current_year now_ts ex
          then update_sub (sub_id ex) (refresh_link link) subs
          else update_sub (sub_id ex)
                 (renew_row current_month current_year now_ts new_end_ts link ptype) subs
      | None \<Rightarrow>
          subs @ [new_row (next_sub_id subs) uid pid now_ts new_end_ts link target_group_id ptype
                    current_month current_year])"

text \<open>
  \<^verbatim>\<open>activate_subscription(user_id, plan_id, payment_type, group_id)\<close>. The
  parameter \<open>local_ts\<close> is \<^verbatim>\<open>int(LOCAL_TZ.localize(dt).timestamp())\<close>: the time
  zone table belongs to a library. The result is the returned pair, or the
  exception of the \<^verbatim>\<open>datetime\<close> constructor, together with the world after the
  call. An exception of \<^verbatim>\<open>unban_chat_member\<close> is caught and logged. Every path
  that reaches the write returns \<^verbatim>\<open>True\<close> with the link, whatever the link is.
\<close>

definition activate_subscription ::
  "platform \<Rightarrow> (datetime \<Rightarrow> int) \<Rightarrow> clock \<Rightarrow> world \<Rightarrow> int \<Rightarrow> int \<Rightarrow> string option \<Rightarrow> int option
     \<Rightarrow> (py_error + bool \<times> activation_text) \<times> world" where
  "activate_subscription pf local_ts clk w uid pid ptype group_id =
     (case find (\<lambda>p. plan_id p = pid) (plans w) of
        None \<Rightarrow> (Inr (False, PlanNotFoundText), w)
      | Some plan \<Rightarrow>
          (let (current_month, current_year) = get_current_period (period_reading clk);
               now_ts = time_reading clk;
               now = now_reading clk
           in case target_group (plan_group_id plan) group_id of
                None \<Rightarrow> (Inr (False, GroupNotSetText), w)
              | Some target_group_id \<Rightarrow>
                  (let w1 = snd (call_api pf w (UnbanChatMember target_group_id uid));
                       existing_sub = existing_active_sub (subscriptions w1) uid pid;
                       (next_month, next_year) = next_period now
                   in case py_datetime next_year next_month 5 23 59 59 of
                        Inl err \<Rightarrow> (Inl err, w1)
                      | Inr end_dt \<Rightarrow>
                          (let new_end_ts = local_ts end_dt;
                               (link, w2) = create_chat_invite_link_one_time pf w1 target_group_id
                           in (Inr (True, InviteLink link),
                               w2\<lparr>subscriptions :=
                                    store_subscription existing_sub current_month current_year now_ts
                                      new_end_ts link target_group_id ptype uid pid
                                      (subscriptions w2)\<rparr>)))))"

section \<open>The removal sweep\<close>






section \<open>Review of manual payments\<close>

text \<open>
  The callback query the handler receives: who pressed the button and the
  button's data, \<^verbatim>\<open>approve_payment:<id>\<close> or \<^verbatim>\<open>reject_payment:<id>\<close>.
\<close>

record callback_query =
  from_user_id :: int
  data :: string

definition startswith :: "string \<Rightarrow> string \<Rightarrow> bool" where
  "startswith s p = (take (length p) s = p)"

text \<open>\<^verbatim>\<open>int(call.data.split(":")[1])\<close>.\<close>

definition payment_id_of :: "string \<Rightarrow> py_error + int" where
  "payment_id_of d =
     (case py_split (CHR '':'') d of
        _ # p1 # _ \<Rightarrow> (case py_int p1 of None \<Rightarrow> Inl ValueError | Some n \<Rightarrow> Inr n)
      | _ \<Rightarrow> Inl IndexError)"

text \<open>\<^verbatim>\<open>UPDATE manual_payments SET ... WHERE id=?\<close>.\<close>

definition update_mp :: "int \<Rightarrow> (manual_payment \<Rightarrow> manual_payment) \<Rightarrow> manual_payment list \<Rightarrow> manual_payment list" where
  "update_mp pid f mps = map (\<lambda>m. if mp_id m = pid then f m else m) mps"

text \<open>\<^verbatim>\<open>bot.answer_callback_query\<close> outside any \<^verbatim>\<open>try\<close>: its exception leaves the handler.\<close>

definition answer_callback_query :: "platform \<Rightarrow> world \<Rightarrow> answer \<Rightarrow> (py_error + unit) \<times> world" where
  "answer_callback_query pf w a =
     (let (failed, w') = call_api pf w (AnswerCallbackQuery a)
      in (if failed then Inl ApiException else Inr (), w'))"

text \<open>
  \<^verbatim>\<open>handle_payment_review(call)\<close>. The handler is registered for data that start
  with one of the two prefixes. \<open>ADMIN_IDS\<close> is configuration; \<open>clk\<close> holds the
  clock readings of the activation and \<open>review_ts\<close> is the later reading stored
  in \<^verbatim>\<open>reviewed_ts\<close>. The query joins the ticket with its plan and its user by
  \<^verbatim>\<open>LEFT JOIN\<close>, so a missing plan or user leaves the title or the username
  \<^verbatim>\<open>NULL\<close>.
\<close>

definition handle_payment_review ::
  "platform \<Rightarrow> (datetime \<Rightarrow> int) \<Rightarrow> clock \<Rightarrow> int \<Rightarrow> int list \<Rightarrow> world \<Rightarrow> callback_query
     \<Rightarrow> (py_error + unit) \<times> world" where
  "handle_payment_review pf local_ts clk review_ts ADMIN_IDS w call =
     (if \<not> (startswith (data call) ''approve_payment:'' \<or> startswith (data call) ''reject_payment:'')
      then (Inr (), w)
      else if from_user_id call \<notin> set ADMIN_IDS then answer_callback_query pf w AccessDenied
      else
        (let is_approve = startswith (data call) ''approve_payment:''
         in case payment_id_of (data call) of
              Inl err \<Rightarrow> (Inl err, w)
            | Inr payment_id \<Rightarrow>
                (case find (\<lambda>m. mp_id m = payment_id \<and> status m = ''pending'') (manual_payments w) of
                   None \<Rightarrow> answer_callback_query pf w TicketNotFoundOrProcessed
                 | Some payment \<Rightarrow>
                     (let uid = mp_user_id payment;
                          plan_title = (case find (\<lambda>p. plan_id p = mp_plan_id payment) (plans w) of
                                          None \<Rightarrow> None | Some p \<Rightarrow> title p);
                          uname = (case find (\<lambda>u. user_id u = uid) (users w) of
                                     None \<Rightarrow> None | Some u \<Rightarrow> username u);
                          reviewed = (\<lambda>st m. m\<lparr>status := st, admin_id := Some (from_user_id call),
                                                reviewed_ts := Some review_ts\<rparr>)
                      in if is_approve then
                           (case activate_subscription pf local_ts clk w uid (mp_plan_id payment)
                                   (mp_payment_type payment) None of
                              (Inl err, w1) \<Rightarrow> (Inl err, w1)
                            | (Inr (success, result), w1) \<Rightarrow>
                                if success then
                                  (let w2 = w1\<lparr>manual_payments :=
                                               update_mp payment_id (reviewed ''approved'') (manual_payments w1)\<rparr>;
                                       w3 = snd (call_api pf w2 (SendMessage uid (PaymentApproved plan_title result)))
                                   in case answer_callback_query pf w3 TicketApproved of
                                        (Inl err, w4) \<Rightarrow> (Inl err, w4)
                                      | (Inr _, w4) \<Rightarrow>
                                          (Inr (), snd (call_api pf w4
                                             (EditMessageCaption (ApprovedCaption uname uid plan_title)))))
                                else answer_callback_query pf w1 (ActivationFailed result))
                         else
                           (let w2 = w\<lparr>manual_payments :=
                                        update_mp payment_id (reviewed ''rejected'') (manual_payments w)\<rparr>;
                                w3 = snd (call_api pf w2 (SendMessage uid (PaymentRejected plan_title)))
                            in case answer_callback_query pf w3 TicketRejected of
                                 (Inl err, w4) \<Rightarrow> (Inl err, w4)
                               | (Inr _, w4) \<Rightarrow>
                                   (Inr (), snd (call_api pf w4
                                      (EditMessageCaption (RejectedCaption uname uid plan_title)))))))))"

section \<open>The other writers of the subscriptions table\<close>






section \<open>The end of validity and the period\<close>





section \<open>Example environments\<close>

text \<open>
  Inputs for the examples that follow the theorems. The deployment's time zone,
  \<^verbatim>\<open>Europe/Minsk\<close>, has been at UTC+3 without daylight saving since 2011, so
  the examples convert local time with that offset: the days since 1 January
  1970 of a civil date, then the seconds.
\<close>

definition days_from_civil :: "int \<Rightarrow> int \<Rightarrow> int \<Rightarrow> int" where
  "days_from_civil y m d =
     (let y' = (if m \<le> 2 then y - 1 else y);
          era = y' div 400;
          yoe = y' - era * 400;
          doy = (153 * (if 2 < m then m - 3 else m + 9) + 2) div 5 + d - 1;
          doe = yoe * 365 + yoe div 4 - yoe div 100 + doy
      in era * 146097 + doe - 719468)"

definition utc3_ts :: "datetime \<Rightarrow> int" where
  "utc3_ts dt =
     days_from_civil (year dt) (month dt) (day dt) * 86400
       + hour dt * 3600 + minute dt * 60 + second dt - 10800"

text \<open>
  A platform where every call succeeds and returns the given link, one where
  every call fails, and one where only the request for a link fails.
\<close>

definition platform_up :: "string \<Rightarrow> platform" where
  "platform_up link = \<lparr>raises = (\<lambda>n c. False), invite_link_result = (\<lambda>n g. Some link)\<rparr>"

definition platform_down :: platform where
  "platform_down = \<lparr>raises = (\<lambda>n c. True), invite_link_result = (\<lambda>n g. None)\<rparr>"

definition platform_no_link :: platform where
  "platform_no_link = \<lparr>raises = (\<lambda>n c. False), invite_link_result = (\<lambda>n g. None)\<rparr>"

text \<open>
  A plan bound to group 500, a clock whose three readings agree, a
  subscription row of user 7 for plan 1 with the given key, period, payment
  state and end, and a world with two users around a subscriptions table.
\<close>

definition maths_plan :: plan where
  "maths_plan = \<lparr>plan_id = 1, price_cents = Some 1000, title = Some ''Maths'', plan_group_id = Some 500\<rparr>"

definition clock_at :: "datetime \<Rightarrow> int \<Rightarrow> clock" where
  "clock_at now ts = \<lparr>period_reading = now, time_reading = ts, now_reading = now\<rparr>"

definition noon :: "int \<Rightarrow> int \<Rightarrow> int \<Rightarrow> datetime" where
  "noon y m d = \<lparr>year = y, month = m, day = d, hour = 12, minute = 0, second = 0\<rparr>"



text \<open>
  A world with one plan and one manual payment ticket, number 5, of user 7 for
  that plan, in the given status; and an administrator's press of a button.
\<close>

definition ticket_world :: "plan \<Rightarrow> string \<Rightarrow> world" where
  "ticket_world p st =
     \<lparr>plans = [p], subscriptions = [],
      users = [\<lparr>user_id = 7, username = Some ''@ann''\<rparr>],
      manual_payments =
        [\<lparr>mp_id = 5, mp_user_id = 7, mp_plan_id = plan_id p, amount_cents = Some 1000, status = st,
          admin_id = None, reviewed_ts = None, mp_payment_type = Some ''full''\<rparr>],
      calls = []\<rparr>"

definition press :: "string \<Rightarrow> callback_query" where
  "press d = \<lparr>from_user_id = 99, data = d\<rparr>"

section \<open>Prices: parsing and rendering\<close>

lemma is_digit_not_space: "is_digit c \<Longrightarrow> \<not> is_space c \<and> \<not> is_space_ascii c"
  by (auto simp: is_digit_def is_space_def is_space_ascii_def Let_def)

lemma is_digit_not_special:
  "is_digit c \<Longrightarrow> c \<noteq> CHR ''.'' \<and> c \<noteq> CHR ''-'' \<and> c \<noteq> CHR ''+'' \<and> c \<noteq> CHR ''_''"
  by (auto simp: is_digit_def)

lemma strip_by_id:
  assumes "s \<noteq> []" "\<not> ws (hd s)" "\<not> ws (last s)"
  shows "strip_by ws s = s"
proof -
  from assms have a: "dropWhile ws s = s" by (cases s) auto
  from assms have "rev s \<noteq> []" "\<not> ws (hd (rev s))" by (auto simp: hd_rev)
  then have "dropWhile ws (rev s) = rev s" by (cases "rev s") auto
  with a show ?thesis by (simp add: strip_by_def)
qed

lemma py_split_no_sep: "sep \<notin> set s \<Longrightarrow> py_split sep s = [s]"
  by (induction s) auto

lemma py_split_append:
  "sep \<notin> set a \<Longrightarrow> py_split sep (a @ sep # b) = a # py_split sep b"
  by (induction a) auto

lemma int_body_ok_digits: "\<forall>c\<in>set ds. is_digit c \<Longrightarrow> int_body_ok p ds = (p \<or> ds \<noteq> [])"
  by (induction ds arbitrary: p) auto

lemma filter_digits: "\<forall>c\<in>set ds. is_digit c \<Longrightarrow> filter (\<lambda>c. c \<noteq> CHR ''_'') ds = ds"
  by (induction ds) (auto dest: is_digit_not_special)

lemma py_int_digits:
  assumes "ds \<noteq> []" "\<forall>c\<in>set ds. is_digit c"
  shows "py_int ds = Some (int (digits_value ds))"
proof -
  from assms have h: "is_digit (hd ds)" "is_digit (last ds)" by auto
  then have "strip_by is_space_ascii ds = ds"
    using assms(1) by (intro strip_by_id) (auto dest: is_digit_not_space)
  moreover obtain c cs where ds: "ds = c # cs" using assms(1) by (cases ds) auto
  moreover have "c \<noteq> CHR ''-''" "c \<noteq> CHR ''+''" "c \<noteq> CHR ''_''"
    using h(1) ds is_digit_not_special by auto
  ultimately show ?thesis
    using assms(2) by (simp add: py_int_def int_body_def int_body_ok_digits filter_digits)
qed

lemma digits_value_snoc: "digits_value (ds @ [c]) = digits_value ds * 10 + digit_val c"
  by (simp add: digits_value_def)

lemma digit_val_less: "is_digit c \<Longrightarrow> digit_val c < 10"
  by (auto simp: is_digit_def digit_val_def)

lemma digit_char_val: "is_digit c \<Longrightarrow> digit_char (digit_val c) = c"
  by (auto simp: is_digit_def digit_val_def digit_char_def)

lemma digit_val_char: "d < 10 \<Longrightarrow> digit_val (digit_char d) = d \<and> is_digit (digit_char d)"
  by (auto simp: is_digit_def digit_val_def digit_char_def)

lemma digit_val_zero: "digit_val c = 0 \<longleftrightarrow> c = CHR ''0''" if "is_digit c"
proof
  assume "digit_val c = 0"
  with that have "(of_char c :: nat) = of_char (CHR ''0'')"
    by (simp add: is_digit_def digit_val_def)
  then show "c = CHR ''0''" by (simp only: of_char_eq_iff)
qed (simp add: digit_val_def)

text \<open>Printing the value of a digit string without a leading zero gives the string back.\<close>

lemma str_nat_digits_value:
  assumes "ds \<noteq> []" "\<forall>c\<in>set ds. is_digit c" "hd ds \<noteq> CHR ''0''"
  shows "0 < digits_value ds \<and> str_nat (digits_value ds) = ds"
  using assms
proof (induction ds rule: rev_induct)
  case Nil
  then show ?case by simp
next
  case (snoc c ds)
  have c: "is_digit c" using snoc.prems by simp
  show ?case
  proof (cases "ds = []")
    case True
    with snoc.prems have "digit_val c \<noteq> 0" using digit_val_zero[OF c] by simp
    with True c show ?thesis
      using digit_val_less[OF c] digit_char_val[OF c] by (simp add: digits_value_def str_nat.simps)
  next
    case False
    with snoc have ih: "0 < digits_value ds" "str_nat (digits_value ds) = ds" by auto
    let ?v = "digits_value ds * 10 + digit_val c"
    have "\<not> ?v < 10" using ih(1) by simp
    moreover have "?v div 10 = digits_value ds" "?v mod 10 = digit_val c"
      using digit_val_less[OF c] by auto
    ultimately have "str_nat ?v = str_nat (digits_value ds) @ [digit_char (digit_val c)]"
      by (subst str_nat.simps) simp
    with ih c show ?thesis
      by (simp add: digits_value_snoc digit_char_val)
  qed
qed

text \<open>Parsing what \<open>str_nat\<close> prints gives the number back.\<close>

lemma str_nat_digits:
  "str_nat n \<noteq> [] \<and> (\<forall>c\<in>set (str_nat n). is_digit c) \<and> digits_value (str_nat n) = n"
proof (induction n rule: str_nat.induct)
  case (1 n)
  show ?case
  proof (cases "n < 10")
    case True
    then show ?thesis using digit_val_char[of n] by (simp add: digits_value_def str_nat.simps)
  next
    case False
    have "n mod 10 < 10" by simp
    note d = digit_val_char[OF this]
    from False have eq: "str_nat n = str_nat (n div 10) @ [digit_char (n mod 10)]"
      by (subst str_nat.simps) simp
    from False 1 have ih: "\<forall>c\<in>set (str_nat (n div 10)). is_digit c"
      "digits_value (str_nat (n div 10)) = n div 10" by auto
    show ?thesis
      unfolding eq using ih d by (auto simp: digits_value_snoc)
  qed
qed

lemma two_chars: "length ff = 2 \<Longrightarrow> \<exists>a b. ff = [a, b]"
  by (cases ff; cases "tl ff") auto

lemma format_02d_two_digits:
  assumes "length ff = 2" "\<forall>c\<in>set ff. is_digit c"
  shows "format_02d (int (digits_value ff)) = ff"
proof -
  from assms(1) obtain a b where ff: "ff = [a, b]" using two_chars by blast
  with assms(2) have a: "is_digit a" and b: "is_digit b" by auto
  show ?thesis
  proof (cases "a = CHR ''0''")
    case True
    then have "digits_value ff = digit_val b"
      using digit_val_zero[OF a] by (simp add: ff digits_value_def)
    then show ?thesis
      using digit_val_less[OF b] digit_char_val[OF b] True
      by (simp add: format_02d_def ff str_nat.simps)
  next
    case False
    then have "str_nat (digits_value ff) = ff"
      using str_nat_digits_value[of ff] assms(2) by (simp add: ff)
    then show ?thesis by (simp add: format_02d_def ff)
  qed
qed

lemma digits_value_two:
  assumes "length ff = 2" "\<forall>c\<in>set ff. is_digit c"
  shows "digits_value ff < 100"
proof -
  from assms(1) obtain a b where ff: "ff = [a, b]" using two_chars by blast
  with assms(2) have "digit_val a < 10" "digit_val b < 10" by (auto dest: digit_val_less)
  then show ?thesis by (simp add: ff digits_value_def)
qed

lemma cents_from_str_W_FF:
  assumes "W \<noteq> []" "\<forall>c\<in>set W. is_digit c" "length FF = 2" "\<forall>c\<in>set FF. is_digit c"
  shows "cents_from_str (W @ ''.'' @ FF) = Some (int (digits_value W) * 100 + int (digits_value FF))"
proof -
  let ?s = "W @ ''.'' @ FF"
  from assms(3) have FF: "FF \<noteq> []" by auto
  have "is_digit (hd ?s)" "is_digit (last ?s)" using assms FF by auto
  then have strip: "py_strip ?s = ?s"
    unfolding py_strip_def by (intro strip_by_id) (auto dest: is_digit_not_space)
  have nd: "CHR ''.'' \<notin> set W" "CHR ''.'' \<notin> set FF"
    using assms is_digit_not_special by blast+
  have split: "py_split (CHR ''.'') (W @ CHR ''.'' # FF) = [W, FF]"
    using nd by (simp add: py_split_append py_split_no_sep)
  have frac: "ljust 2 (CHR ''0'') (take 2 FF) = FF" using assms(3) by (simp add: ljust_def)
  show ?thesis
    unfolding cents_from_str_def strip Let_def
    by (simp add: split frac py_int_digits[OF assms(1,2)] py_int_digits[OF FF assms(4)])
qed

lemma price_str_of_parts:
  assumes "length FF = 2" "\<forall>c\<in>set FF. is_digit c"
  shows "price_str_from_cents cur (Some (int w * 100 + int (digits_value FF)))
         = str_nat w @ ''.'' @ FF @ '' '' @ cur"
proof -
  let ?f = "digits_value FF"
  have lt: "?f < 100" using assms by (rule digits_value_two)
  have "(int w * 100 + int ?f) div 100 = int w" "(int w * 100 + int ?f) mod 100 = int ?f"
    using lt by auto
  then show ?thesis
    by (simp add: price_str_from_cents_def str_int_def format_02d_two_digits[OF assms])
qed

text \<open>
  Claim C9. For a price string \<open>W.FF\<close>, with \<open>W\<close> a non-empty string of digits
  and \<open>FF\<close> exactly two digits, \<open>cents_from_str\<close> succeeds with the value
  \<open>100 * W + FF\<close>; \<open>price_str_from_cents\<close> renders that value as the whole part
  in canonical decimal form, a dot, the same two digits \<open>FF\<close>, a space and the
  currency; parsing the rendered number gives the same cents again; and when
  \<open>W\<close> has no leading zero the rendered number is the input string itself.
\<close>

theorem price_round_trip:
  assumes "W \<noteq> []" "\<forall>c\<in>set W. is_digit c" "length FF = 2" "\<forall>c\<in>set FF. is_digit c"
  shows "cents_from_str (W @ ''.'' @ FF) = Some (int (digits_value W) * 100 + int (digits_value FF))
       \<and> price_str_from_cents cur (cents_from_str (W @ ''.'' @ FF))
           = str_nat (digits_value W) @ ''.'' @ FF @ '' '' @ cur
       \<and> cents_from_str (str_nat (digits_value W) @ ''.'' @ FF) = cents_from_str (W @ ''.'' @ FF)
       \<and> (hd W \<noteq> CHR ''0'' \<longrightarrow>
            price_str_from_cents cur (cents_from_str (W @ ''.'' @ FF)) = W @ ''.'' @ FF @ '' '' @ cur)"
proof -
  note p = cents_from_str_W_FF[OF assms]
  have r: "price_str_from_cents cur (cents_from_str (W @ ''.'' @ FF))
         = str_nat (digits_value W) @ ''.'' @ FF @ '' '' @ cur"
    unfolding p by (rule price_str_of_parts[OF assms(3,4)])
  have v: "cents_from_str (str_nat (digits_value W) @ ''.'' @ FF) = cents_from_str (W @ ''.'' @ FF)"
    using cents_from_str_W_FF[of "str_nat (digits_value W)" FF] str_nat_digits[of "digits_value W"] assms(3,4)
    unfolding p by simp
  have c: "price_str_from_cents cur (cents_from_str (W @ ''.'' @ FF)) = W @ ''.'' @ FF @ '' '' @ cur"
    if "hd W \<noteq> CHR ''0''"
    unfolding r using str_nat_digits_value[OF assms(1,2) that] by simp
  from p r v c show ?thesis by blast
qed

text \<open>The price \<open>14.99\<close>, and \<open>0014.99\<close> with leading zeros.\<close>

theorem price_round_trip_witness:
  "cents_from_str ''14.99'' = Some 1499
   \<and> price_str_from_cents ''BYN'' (cents_from_str ''14.99'') = ''14.99 BYN''
   \<and> price_str_from_cents ''BYN'' (cents_from_str ''0014.99'') = ''14.99 BYN''"
proof -
  have d: "\<forall>c\<in>set ''14''. is_digit c" "\<forall>c\<in>set ''0014''. is_digit c" "\<forall>c\<in>set ''99''. is_digit c"
    by (simp_all add: is_digit_def)
  have v: "digits_value ''14'' = 14" "digits_value ''0014'' = 14" "digits_value ''99'' = 99"
    by (simp_all add: digits_value_def digit_val_def)
  have n: "''14'' \<noteq> []" "''0014'' \<noteq> []" "length ''99'' = 2" by simp_all
  have s: "str_nat 14 = ''14''" by code_simp
  have e: "''14'' @ ''.'' @ ''99'' = ''14.99''" "''0014'' @ ''.'' @ ''99'' = ''0014.99''"
    "''14'' @ ''.'' @ ''99'' @ '' '' @ ''BYN'' = ''14.99 BYN''" "int 14 * 100 + int 99 = 1499"
    by simp_all
  note a = price_round_trip[OF n(1) d(1) n(3) d(3), of "''BYN''", unfolded v s e]
  note b = price_round_trip[OF n(2) d(2) n(3) d(3), of "''BYN''", unfolded v s e]
  from a b show ?thesis by blast
qed

section \<open>Promo codes: the discounted price\<close>

text \<open>
  Scaling by a power of two of at least 64 before the rounded division by 100
  keeps the integer part: the nearest multiple of \<open>1 / P\<close> to a quotient with
  fractional part at most \<open>0.99\<close> stays below the next integer.
\<close>

lemma rhe_scaled_div:
  fixes n P :: int
  assumes n: "0 \<le> n" and P: "64 \<le> P"
  shows "round_half_even_div (n * P) 100 div P = n div 100"
proof -
  define k r where "k = n div 100" and "r = n mod 100"
  have nk: "n = 100 * k + r" and r: "0 \<le> r" "r \<le> 99" by (auto simp: k_def r_def)
  define t m where "t = (r * P) div 100" and "m = (r * P) mod 100"
  have X: "r * P = 100 * t + m" and m: "0 \<le> m" "m < 100" by (auto simp: t_def m_def)
  have rP: "r * P \<le> 99 * P" "0 \<le> r * P" using r P by (auto intro: mult_right_mono)
  have t0: "0 \<le> t" using rP t_def by (simp add: pos_imp_zdiv_nonneg_iff)
  have tP: "t < P" using X m rP P by linarith
  have split: "n * P = 100 * (k * P + t) + m" using nk X by (simp add: algebra_simps)
  have Q: "(n * P) div 100 = k * P + t" using split m by (rule int_div_pos_eq)
  have M: "(n * P) mod 100 = m" using split m by (rule int_mod_pos_eq)
  have up: "100 \<le> 2 * m \<Longrightarrow> t + 1 < P" using X m rP P by linarith
  have d1: "(k * P + t) div P = k" using t0 tP P by (simp add: div_pos_pos_trivial)
  have d2: "(k * P + t + 1) div P = k" if "t + 1 < P"
  proof -
    from that have "(k * P + (t + 1)) div P = k" using t0 P by (simp add: div_pos_pos_trivial)
    then show ?thesis by (simp add: add.assoc)
  qed
  show ?thesis
    unfolding round_half_even_div_def Let_def Q M using d1 d2 up k_def by auto
qed

lemma bitlen_100: "bitlen 100 = 7"
  by code_simp

lemma binary64_exponent_100:
  fixes n :: int
  assumes "0 < n" "n < 100 * 2 ^ 47"
  shows "- 59 \<le> binary64_exponent n 100 \<and> binary64_exponent n 100 \<le> - 6"
proof -
  have "n < 2 ^ 54" using assms(2) by simp
  then have "bitlen n \<le> 54" by (simp add: bitlen_le_iff_power)
  moreover have "1 \<le> bitlen n"
    using assms(1) bitlen_eq_zero_iff[of n] bitlen_nonneg[of n] by linarith
  ultimately have d: "- 6 \<le> bitlen n - 7" "bitlen n - 7 \<le> 47" by simp_all
  define d where "d = bitlen n - 7"
  define fl where
    "fl = (if (if 0 \<le> d then 100 * 2 ^ nat d \<le> n else 100 \<le> n * 2 ^ nat (- d)) then d else d - 1)"
  have "fl \<le> 46"
  proof (cases "d = 47")
    case True
    then have "\<not> (100 * 2 ^ nat d \<le> n)" using assms(2) by simp
    with True show ?thesis by (simp add: fl_def)
  next
    case False
    with d show ?thesis by (simp add: fl_def d_def)
  qed
  moreover have "- 7 \<le> fl" using d by (simp add: fl_def d_def)
  moreover have "binary64_exponent n 100 = max (fl - 52) (- 1074)"
    by (simp add: binary64_exponent_def Let_def bitlen_100 fl_def d_def)
  ultimately show ?thesis by simp
qed

text \<open>Below \<open>100 * 2 ^ 47\<close> the division through a float is the exact integer division.\<close>

lemma py_int_truediv_100_exact:
  fixes n :: int
  assumes "0 \<le> n" "n < 100 * 2 ^ 47"
  shows "py_int_truediv n 100 = Inr (n div 100)"
proof (cases "n = 0")
  case True
  then show ?thesis by (simp add: py_int_truediv_def py_truediv_def py_int_of_float_def)
next
  case False
  with assms have pos: "0 < n" by simp
  define e where "e = binary64_exponent n 100"
  have e: "- 59 \<le> e" "e \<le> - 6"
    using binary64_exponent_100[OF pos assms(2)] by (simp_all add: e_def)
  define P :: int where "P = 2 ^ nat (- e)"
  have "(2::int) ^ 6 \<le> 2 ^ nat (- e)" using e by (intro power_increasing) auto
  then have P: "64 \<le> P" by (simp add: P_def)
  define q where "q = round_half_even_div (n * P) 100"
  have qdiv: "q div P = n div 100" unfolding q_def using assms(1) P by (rule rhe_scaled_div)
  have "0 \<le> q div P" using qdiv assms(1) by (simp add: pos_imp_zdiv_nonneg_iff)
  then have q0: "0 \<le> q" using P by (simp add: pos_imp_zdiv_nonneg_iff)
  have sq: "scaled_quotient n 100 e = q" using e by (simp add: scaled_quotient_def q_def P_def)
  have "py_truediv n 100 = Inr (Float q e)"
    using pos e sq by (simp add: py_truediv_def e_def[symmetric] Let_def)
  moreover have "py_int_of_float (Float q e) = q div P"
    using e q0 by (cases "q = 0") (simp_all add: py_int_of_float_def P_def)
  ultimately show ?thesis by (simp add: py_int_truediv_def qdiv)
qed

lemma truthy_value_Some: "truthy_value (Some d) = (if d = 0 then None else Some d)"
  by (simp add: truthy_value_def)

text \<open>
  The fixed branch: with no percentage set, a fixed discount \<open>f \<ge> 0\<close> on a price
  \<open>p \<ge> 0\<close> gives \<open>max 0 (p - f)\<close>.
\<close>

lemma apply_promo_code_fixed:
  assumes "0 \<le> p" "0 \<le> f" "truthy_value (discount_percent promo) = None"
    and "discount_fixed_cents promo = Some f"
  shows "map_sum id fst (apply_promo_code cur p promo) = Inr (max 0 (p - f))"
  using assms by (simp add: apply_promo_code_def truthy_value_Some)

text \<open>The percentage branch, where the product is small enough for the float to be exact.\<close>

lemma apply_promo_code_percent_exact:
  assumes "0 \<le> p" "0 < d" "p * d < 100 * 2 ^ 47" "discount_percent promo = Some d"
  shows "apply_promo_code cur p promo
         = Inr (max 0 (p - (p * d) div 100), PromoPercentApplied (code promo) d)"
proof -
  have "0 \<le> p * d" using assms(1,2) by simp
  then have "py_int_truediv (p * d) 100 = Inr ((p * d) div 100)"
    using assms(3) by (rule py_int_truediv_100_exact)
  then show ?thesis using assms(2,4) by (simp add: apply_promo_code_def truthy_value_Some)
qed

text \<open>
  Claim C5, at the price of 9007199254740993 cents with a promo of 100 percent.
  The product divided by 100 is \<open>2 ^ 53 + 1\<close>, which no binary64 float holds; the
  float is \<open>2 ^ 53\<close>, so the discount is one cent short and the new price is 1,
  where \<open>max 0 (p - floor (p * d / 100))\<close> is 0.
\<close>

theorem apply_promo_code_float_rounding:
  "apply_promo_code ''BYN'' 9007199254740993
     \<lparr>promo_id = 1, code = ''FREE'', discount_percent = Some 100, discount_fixed_cents = Some 0,
      is_active = Some 1, used_count = Some 0, max_uses = None, expires_ts = None\<rparr>
   = Inr (1, PromoPercentApplied ''FREE'' 100)
   \<and> max 0 (9007199254740993 - (9007199254740993 * 100) div 100) = (0::int)"
  by code_simp

text \<open>
  Claim C6 as stated fails on the scenario of the specification itself: 10
  percent off 1000 gives 900, and \<open>max 0 (floor (1000 * 10 / 100))\<close> is 100, the
  discount.
\<close>

theorem apply_percent_formula_counterexample:
  "map_sum id fst (apply_promo_code ''BYN'' 1000
     \<lparr>promo_id = 1, code = ''TEN'', discount_percent = Some 10, discount_fixed_cents = Some 0,
      is_active = Some 1, used_count = Some 0, max_uses = None, expires_ts = None\<rparr>)
   \<noteq> Inr (max 0 ((1000 * 10) div 100))"
  by code_simp

text \<open>
  Claim C6, amended. For a price \<open>p \<ge> 0\<close> and a promo that carries only a
  percentage \<open>d\<close> between 0 and 100, with \<open>p * d\<close> below \<open>100 * 2 ^ 47\<close>, the new
  price is \<open>max 0 (p - floor (p * d / 100))\<close>; the discount subtracted is between
  0 and \<open>p\<close>, so the new price is \<open>p\<close> minus the discount, and at most \<open>p\<close>.
\<close>

theorem apply_percent_new_price:
  assumes "0 \<le> p" "0 \<le> d" "d \<le> 100" "p * d < 100 * 2 ^ 47"
    and "discount_percent promo = Some d" "truthy_value (discount_fixed_cents promo) = None"
  shows "map_sum id fst (apply_promo_code cur p promo) = Inr (max 0 (p - (p * d) div 100))
       \<and> 0 \<le> (p * d) div 100 \<and> (p * d) div 100 \<le> p
       \<and> max 0 (p - (p * d) div 100) = p - (p * d) div 100
       \<and> max 0 (p - (p * d) div 100) \<le> p"
proof -
  have nn: "0 \<le> p * d" using assms(1,2) by simp
  then have lo: "0 \<le> (p * d) div 100" by (simp add: pos_imp_zdiv_nonneg_iff)
  have "p * d \<le> p * 100" using assms(1,3) by (rule mult_left_mono[rotated])
  then have hi: "(p * d) div 100 \<le> p" using zdiv_mono1[of "p * d" "p * 100" 100] by simp
  have price: "map_sum id fst (apply_promo_code cur p promo) = Inr (max 0 (p - (p * d) div 100))"
  proof (cases "d = 0")
    case True
    then show ?thesis using assms(1,5,6) by (simp add: apply_promo_code_def truthy_value_Some)
  next
    case False
    with assms(2) have "0 < d" by simp
    from apply_promo_code_percent_exact[OF assms(1) this assms(4,5)] show ?thesis by simp
  qed
  from price lo hi show ?thesis by simp
qed

text \<open>The scenario of the specification: 10 percent off 1000 is 900.\<close>

theorem apply_percent_new_price_witness:
  "map_sum id fst (apply_promo_code ''BYN'' 1000
     \<lparr>promo_id = 1, code = ''TEN'', discount_percent = Some 10, discount_fixed_cents = Some 0,
      is_active = Some 1, used_count = Some 0, max_uses = None, expires_ts = None\<rparr>)
   = Inr 900"
  using apply_percent_new_price[of 1000 10
     "\<lparr>promo_id = 1, code = ''TEN'', discount_percent = Some 10, discount_fixed_cents = Some 0,
      is_active = Some 1, used_count = Some 0, max_uses = None, expires_ts = None\<rparr>" "''BYN''"]
  by (simp add: truthy_value_def)

section \<open>Activation: the paths of the function\<close>


lemma activate_subscription_no_plan:
  assumes "find (\<lambda>p. plan_id p = pid) (plans w) = None"
  shows "activate_subscription pf local_ts clk w uid pid ptype gid = (Inr (False, PlanNotFoundText), w)"
  using assms by (simp add: activate_subscription_def)

lemma activate_subscription_no_group:
  assumes "find (\<lambda>p. plan_id p = pid) (plans w) = Some plan"
    and "target_group (plan_group_id plan) gid = None"
  shows "activate_subscription pf local_ts clk w uid pid ptype gid = (Inr (False, GroupNotSetText), w)"
  using assms by (simp add: activate_subscription_def split: prod.splits)

lemma activate_subscription_bad_date:
  assumes "find (\<lambda>p. plan_id p = pid) (plans w) = Some plan"
    and "target_group (plan_group_id plan) gid = Some g"
    and "next_period (now_reading clk) = (nm, ny)"
    and "py_datetime ny nm 5 23 59 59 = Inl err"
  shows "activate_subscription pf local_ts clk w uid pid ptype gid =
     (Inl err, w\<lparr>calls := calls w @ [UnbanChatMember g uid]\<rparr>)"
  using assms
  by (simp add: activate_subscription_def call_api_def Let_def split: prod.splits)

lemma activate_subscription_found:
  assumes "find (\<lambda>p. plan_id p = pid) (plans w) = Some plan"
    and "target_group (plan_group_id plan) gid = Some g"
    and "next_period (now_reading clk) = (nm, ny)"
    and "py_datetime ny nm 5 23 59 59 = Inr end_dt"
  shows "activate_subscription pf local_ts clk w uid pid ptype gid =
     (Inr (True, InviteLink (invite_link_result pf (Suc (length (calls w))) g)),
      w\<lparr>calls := calls w @ [UnbanChatMember g uid, CreateChatInviteLink g],
        subscriptions :=
          store_subscription (existing_active_sub (subscriptions w) uid pid)
            (month (period_reading clk)) (year (period_reading clk)) (time_reading clk)
            (local_ts end_dt) (invite_link_result pf (Suc (length (calls w))) g) g ptype uid pid
            (subscriptions w)\<rparr>)"
  using assms
  by (simp add: activate_subscription_def get_current_period_def call_api_def
      create_chat_invite_link_one_time_def Let_def split: prod.splits)


text \<open>
  Claim C10. When no row of \<^verbatim>\<open>plans\<close> has the given id, the function returns
  the failure "plan not found" and the world is the one it started from: the
  tables are unchanged and no call to the platform was made, so no unban and no
  invite link were requested.
\<close>

theorem plan_not_found_no_mutation:
  assumes "pid \<notin> plan_id ` set (plans w)"
  shows "activate_subscription pf local_ts clk w uid pid ptype gid = (Inr (False, PlanNotFoundText), w)"
proof -
  from assms have "find (\<lambda>p. plan_id p = pid) (plans w) = None"
    by (auto simp: find_None_iff)
  then show ?thesis by (rule activate_subscription_no_plan)
qed

text \<open>A table with plan 1 only, and an activation of plan 2.\<close>

theorem plan_not_found_no_mutation_witness:
  "activate_subscription (platform_up ''https://t.me/+abc'') utc3_ts
     \<lparr>period_reading = \<lparr>year = 2025, month = 3, day = 31, hour = 12, minute = 0, second = 0\<rparr>,
      time_reading = 1743411600,
      now_reading = \<lparr>year = 2025, month = 3, day = 31, hour = 12, minute = 0, second = 0\<rparr>\<rparr>
     \<lparr>plans = [\<lparr>plan_id = 1, price_cents = Some 1000, title = Some ''Maths'', plan_group_id = Some 500\<rparr>],
      subscriptions = [], users = [], manual_payments = [], calls = []\<rparr>
     7 2 (Some ''full'') None
   = (Inr (False, PlanNotFoundText),
      \<lparr>plans = [\<lparr>plan_id = 1, price_cents = Some 1000, title = Some ''Maths'', plan_group_id = Some 500\<rparr>],
       subscriptions = [], users = [], manual_payments = [], calls = []\<rparr>)"
  by (rule plan_not_found_no_mutation) simp

text \<open>
  Claim C7, at a plan bound to a group when the request for the invite link
  fails. \<^verbatim>\<open>create_chat_invite_link_one_time\<close> returns \<^verbatim>\<open>None\<close>, the function does
  not test it, inserts the row with an empty link and returns \<^verbatim>\<open>True\<close> with
  \<^verbatim>\<open>None\<close> as the link.
\<close>

theorem invite_failure_returns_success:
  "activate_subscription platform_no_link utc3_ts
     \<lparr>period_reading = \<lparr>year = 2025, month = 3, day = 31, hour = 12, minute = 0, second = 0\<rparr>,
      time_reading = 1743411600,
      now_reading = \<lparr>year = 2025, month = 3, day = 31, hour = 12, minute = 0, second = 0\<rparr>\<rparr>
     \<lparr>plans = [\<lparr>plan_id = 1, price_cents = Some 1000, title = Some ''Maths'', plan_group_id = Some 500\<rparr>],
      subscriptions = [], users = [], manual_payments = [], calls = []\<rparr>
     7 1 (Some ''full'') None
   = (Inr (True, InviteLink None),
      \<lparr>plans = [\<lparr>plan_id = 1, price_cents = Some 1000, title = Some ''Maths'', plan_group_id = Some 500\<rparr>],
       subscriptions =
         [\<lparr>sub_id = 1, sub_user_id = 7, sub_plan_id = 1, start_ts = 1743411600, end_ts = 1743886799,
           active = 1, invite_link = None, removed = 0, sub_group_id = Some 500,
           payment_type = Some ''full'', current_period_month = 3, current_period_year = 2025,
           part_paid = ''full'', next_payment_date = Some 1743886799, last_notification_ts = None\<rparr>],
       users = [], manual_payments = [],
       calls = [UnbanChatMember 500 7, CreateChatInviteLink 500]\<rparr>)"
  by code_simp

section \<open>Activation: the refreshed link\<close>
















lemma update_sub_at_id:
  assumes "s' \<in> set (update_sub sid f subs)" "sub_id s' = sid" "\<And>s. sub_id (f s) = sub_id s"
  shows "\<exists>s\<in>set subs. sub_id s = sid \<and> s' = f s"
  using assms by (auto simp: update_sub_def split: if_splits)

lemma update_sub_mem:
  assumes "s \<in> set subs" "sub_id s = sid"
  shows "f s \<in> set (update_sub sid f subs)"
  using assms by (auto simp: update_sub_def)

section \<open>The invariant of the subscriptions table\<close>






lemma filter_update_sub_length:
  assumes "\<And>s. s \<in> set subs \<Longrightarrow> sub_id s = sid \<Longrightarrow> P (f s) = P s"
  shows "length (filter P (update_sub sid f subs)) = length (filter P subs)"
  using assms by (induction subs) (auto simp: update_sub_def)








lemma call_api_tables:
  "subscriptions (snd (call_api pf w c)) = subscriptions w"
  "plans (snd (call_api pf w c)) = plans w"
  "users (snd (call_api pf w c)) = users w"
  "manual_payments (snd (call_api pf w c)) = manual_payments w"
  "calls (snd (call_api pf w c)) = calls w @ [c]"
  by (simp_all add: call_api_def)

lemma answer_callback_query_tables:
  "subscriptions (snd (answer_callback_query pf w a)) = subscriptions w"
  "plans (snd (answer_callback_query pf w a)) = plans w"
  "users (snd (answer_callback_query pf w a)) = users w"
  "manual_payments (snd (answer_callback_query pf w a)) = manual_payments w"
  "calls (snd (answer_callback_query pf w a)) = calls w @ [AnswerCallbackQuery a]"
  by (simp_all add: answer_callback_query_def call_api_def)






section \<open>The review handler and the writers of the table\<close>

lemma activate_subscription_other_tables:
  assumes "activate_subscription pf local_ts clk w uid pid ptype gid = (r, w')"
  shows "plans w' = plans w \<and> users w' = users w \<and> manual_payments w' = manual_payments w"
proof (cases "find (\<lambda>p. plan_id p = pid) (plans w)")
  case None
  from activate_subscription_no_plan[OF this] assms show ?thesis by simp
next
  case (Some plan)
  show ?thesis
  proof (cases "target_group (plan_group_id plan) gid")
    case None
    from activate_subscription_no_group[OF Some this] assms show ?thesis by simp
  next
    case g: (Some g)
    obtain nm ny where np: "next_period (now_reading clk) = (nm, ny)"
      by (cases "next_period (now_reading clk)")
    show ?thesis
    proof (cases "py_datetime ny nm 5 23 59 59")
      case (Inl err)
      from activate_subscription_bad_date[OF Some g np this] assms show ?thesis by auto
    next
      case (Inr end_dt)
      from activate_subscription_found[OF Some g np this, of pf local_ts uid ptype] assms
      show ?thesis by auto
    qed
  qed
qed

lemma review_not_registered:
  assumes "\<not> (startswith (data call) ''approve_payment:'' \<or> startswith (data call) ''reject_payment:'')"
  shows "handle_payment_review pf local_ts clk review_ts admins w call = (Inr (), w)"
  using assms by (simp add: handle_payment_review_def)

lemma review_not_admin:
  assumes "startswith (data call) ''approve_payment:'' \<or> startswith (data call) ''reject_payment:''"
    and "from_user_id call \<notin> set admins"
  shows "handle_payment_review pf local_ts clk review_ts admins w call
         = answer_callback_query pf w AccessDenied"
  using assms by (simp add: handle_payment_review_def)

lemma review_bad_id:
  assumes "startswith (data call) ''approve_payment:'' \<or> startswith (data call) ''reject_payment:''"
    and "from_user_id call \<in> set admins"
    and "payment_id_of (data call) = Inl err"
  shows "handle_payment_review pf local_ts clk review_ts admins w call = (Inl err, w)"
  using assms by (simp add: handle_payment_review_def)

lemma review_not_pending:
  assumes "startswith (data call) ''approve_payment:'' \<or> startswith (data call) ''reject_payment:''"
    and "from_user_id call \<in> set admins"
    and "payment_id_of (data call) = Inr n"
    and "find (\<lambda>m. mp_id m = n \<and> status m = ''pending'') (manual_payments w) = None"
  shows "handle_payment_review pf local_ts clk review_ts admins w call
         = answer_callback_query pf w TicketNotFoundOrProcessed"
  using assms by (simp add: handle_payment_review_def)

lemma review_reject:
  assumes "startswith (data call) ''approve_payment:'' \<or> startswith (data call) ''reject_payment:''"
    and "from_user_id call \<in> set admins"
    and "payment_id_of (data call) = Inr n"
    and "find (\<lambda>m. mp_id m = n \<and> status m = ''pending'') (manual_payments w) = Some p"
    and "\<not> startswith (data call) ''approve_payment:''"
    and "handle_payment_review pf local_ts clk review_ts admins w call = (r, w')"
  shows "manual_payments w' =
           update_mp n (\<lambda>m. m\<lparr>status := ''rejected'', admin_id := Some (from_user_id call),
                                reviewed_ts := Some review_ts\<rparr>) (manual_payments w)"
    and "subscriptions w' = subscriptions w"
    and "\<exists>ti rest. calls w' = calls w @ SendMessage (mp_user_id p) (PaymentRejected ti)
                                       # AnswerCallbackQuery TicketRejected # rest"
  using assms
  by (auto simp: handle_payment_review_def Let_def answer_callback_query_def call_api_def
      split: prod.splits sum.splits if_splits)

lemma review_approve:
  assumes "startswith (data call) ''approve_payment:''"
    and "from_user_id call \<in> set admins"
    and "payment_id_of (data call) = Inr n"
    and "find (\<lambda>m. mp_id m = n \<and> status m = ''pending'') (manual_payments w) = Some p"
    and "activate_subscription pf local_ts clk w (mp_user_id p) (mp_plan_id p) (mp_payment_type p) None
         = (Inr (True, t), w1)"
    and "handle_payment_review pf local_ts clk review_ts admins w call = (r, w')"
  shows "manual_payments w' =
           update_mp n (\<lambda>m. m\<lparr>status := ''approved'', admin_id := Some (from_user_id call),
                                reviewed_ts := Some review_ts\<rparr>) (manual_payments w)"
    and "subscriptions w' = subscriptions w1"
    and "\<exists>ti rest. calls w' = calls w1 @ SendMessage (mp_user_id p) (PaymentApproved ti t)
                                        # AnswerCallbackQuery TicketApproved # rest"
  using assms activate_subscription_other_tables[OF assms(5)]
  by (auto simp: handle_payment_review_def Let_def answer_callback_query_def call_api_def
      split: prod.splits sum.splits if_splits)

lemma review_approve_failed:
  assumes "startswith (data call) ''approve_payment:''"
    and "from_user_id call \<in> set admins"
    and "payment_id_of (data call) = Inr n"
    and "find (\<lambda>m. mp_id m = n \<and> status m = ''pending'') (manual_payments w) = Some p"
    and "activate_subscription pf local_ts clk w (mp_user_id p) (mp_plan_id p) (mp_payment_type p) None
         = (Inr (False, t), w1)"
    and "handle_payment_review pf local_ts clk review_ts admins w call = (r, w')"
  shows "manual_payments w' = manual_payments w"
    and "subscriptions w' = subscriptions w1"
    and "calls w' = calls w1 @ [AnswerCallbackQuery (ActivationFailed t)]"
  using assms activate_subscription_other_tables[OF assms(5)]
  by (auto simp: handle_payment_review_def Let_def answer_callback_query_def call_api_def
      split: prod.splits sum.splits if_splits)

lemma review_approve_raised:
  assumes "startswith (data call) ''approve_payment:''"
    and "from_user_id call \<in> set admins"
    and "payment_id_of (data call) = Inr n"
    and "find (\<lambda>m. mp_id m = n \<and> status m = ''pending'') (manual_payments w) = Some p"
    and "activate_subscription pf local_ts clk w (mp_user_id p) (mp_plan_id p) (mp_payment_type p) None
         = (Inl err, w1)"
  shows "handle_payment_review pf local_ts clk review_ts admins w call = (Inl err, w1)"
  using assms
  by (auto simp: handle_payment_review_def Let_def split: prod.splits sum.splits if_splits)


lemma answer_only_calls:
  assumes "answer_callback_query pf w a = (r, w')"
  shows "subscriptions w' = subscriptions w" "manual_payments w' = manual_payments w"
    "calls w' = calls w @ [AnswerCallbackQuery a]"
  using assms by (auto simp: answer_callback_query_def call_api_def split: prod.splits)





section \<open>Manual payment tickets\<close>

lemma activate_subscription_failure:
  assumes "activate_subscription pf local_ts clk w uid pid ptype gid = (Inr (False, t), w')"
  shows "w' = w"
proof (cases "find (\<lambda>p. plan_id p = pid) (plans w)")
  case None
  from activate_subscription_no_plan[OF this] assms show ?thesis by simp
next
  case (Some plan)
  show ?thesis
  proof (cases "target_group (plan_group_id plan) gid")
    case None
    from activate_subscription_no_group[OF Some this] assms show ?thesis by simp
  next
    case g: (Some g)
    obtain nm ny where np: "next_period (now_reading clk) = (nm, ny)"
      by (cases "next_period (now_reading clk)")
    show ?thesis
    proof (cases "py_datetime ny nm 5 23 59 59")
      case (Inl err)
      from activate_subscription_bad_date[OF Some g np this] assms show ?thesis by auto
    next
      case (Inr end_dt)
      from activate_subscription_found[OF Some g np this, of pf local_ts uid ptype] assms
      show ?thesis by auto
    qed
  qed
qed

lemma review_manual_payments:
  assumes h: "handle_payment_review pf local_ts clk review_ts admins w call = (r, w')"
  shows "manual_payments w' = manual_payments w
       \<or> (\<exists>n p f. find (\<lambda>m. mp_id m = n \<and> status m = ''pending'') (manual_payments w) = Some p
              \<and> manual_payments w' = update_mp n f (manual_payments w))"
proof (cases "startswith (data call) ''approve_payment:'' \<or> startswith (data call) ''reject_payment:''")
  case False
  from review_not_registered[OF this] h show ?thesis by simp
next
  case reg: True
  show ?thesis
  proof (cases "from_user_id call \<in> set admins")
    case False
    from review_not_admin[OF reg this] h answer_only_calls(2) show ?thesis by metis
  next
    case adm: True
    show ?thesis
    proof (cases "payment_id_of (data call)")
      case (Inl err)
      from review_bad_id[OF reg adm this] h show ?thesis by simp
    next
      case (Inr n)
      show ?thesis
      proof (cases "find (\<lambda>m. mp_id m = n \<and> status m = ''pending'') (manual_payments w)")
        case None
        from review_not_pending[OF reg adm Inr this] h answer_only_calls(2) show ?thesis by metis
      next
        case (Some p)
        show ?thesis
        proof (cases "startswith (data call) ''approve_payment:''")
          case False
          from review_reject(1)[OF reg adm Inr Some False h] Some show ?thesis by blast
        next
          case app: True
          obtain ra w1 where a: "activate_subscription pf local_ts clk w (mp_user_id p) (mp_plan_id p)
                                   (mp_payment_type p) None = (ra, w1)"
            by (cases "activate_subscription pf local_ts clk w (mp_user_id p) (mp_plan_id p)
                                   (mp_payment_type p) None")
          show ?thesis
          proof (cases ra)
            case (Inl err)
            from review_approve_raised[OF app adm Inr Some a[unfolded Inl]] h
              activate_subscription_other_tables[OF a] show ?thesis by simp
          next
            case ok: (Inr res)
            obtain success t where res: "res = (success, t)" by (cases res)
            show ?thesis
            proof (cases success)
              case True
              with a ok res have "activate_subscription pf local_ts clk w (mp_user_id p) (mp_plan_id p)
                                   (mp_payment_type p) None = (Inr (True, t), w1)" by simp
              from review_approve(1)[OF app adm Inr Some this h] Some show ?thesis by blast
            next
              case False
              with a ok res have "activate_subscription pf local_ts clk w (mp_user_id p) (mp_plan_id p)
                                   (mp_payment_type p) None = (Inr (False, t), w1)" by simp
              from review_approve_failed(1)[OF app adm Inr Some this h] show ?thesis by simp
            qed
          qed
        qed
      qed
    qed
  qed
qed

lemma reviewed_tickets_kept:
  assumes h: "handle_payment_review pf local_ts clk review_ts admins w call = (r, w')"
    and d: "distinct (map mp_id (manual_payments w))"
  shows "length (manual_payments w') = length (manual_payments w)
       \<and> (\<forall>i<length (manual_payments w).
             status (manual_payments w ! i) \<noteq> ''pending'' \<longrightarrow>
             manual_payments w' ! i = manual_payments w ! i)"
  using review_manual_payments[OF h]
proof (elim disjE exE conjE)
  assume "manual_payments w' = manual_payments w"
  then show ?thesis by simp
next
  fix n p f
  assume f: "find (\<lambda>m. mp_id m = n \<and> status m = ''pending'') (manual_payments w) = Some p"
    and u: "manual_payments w' = update_mp n f (manual_payments w)"
  from f have p: "p \<in> set (manual_payments w)" "mp_id p = n" "status p = ''pending''"
    by (auto simp: find_Some_iff)
  have "manual_payments w' ! i = manual_payments w ! i"
    if i: "i < length (manual_payments w)" and s: "status (manual_payments w ! i) \<noteq> ''pending''" for i
  proof -
    have "mp_id (manual_payments w ! i) \<noteq> n"
    proof
      assume e: "mp_id (manual_payments w ! i) = n"
      have "manual_payments w ! i \<in> set (manual_payments w)" using i by simp
      with d p(1,2) e have "manual_payments w ! i = p"
        by (auto simp: distinct_map inj_on_def)
      with s p(3) show False by simp
    qed
    then show ?thesis using i by (simp add: u update_mp_def)
  qed
  then show ?thesis by (simp add: u update_mp_def)
qed


text \<open>
  Claim C8 as stated fails where the activation fails: the plan of the ticket
  has no group of its own and the handler passes none, so the approval leaves
  the ticket pending and tells only the administrator.
\<close>

theorem approve_without_group_counterexample:
  "handle_payment_review (platform_up ''https://t.me/+new'') utc3_ts (clock_at (noon 2025 3 31) 1743411600)
     1743411700 [99]
     (ticket_world \<lparr>plan_id = 2, price_cents = Some 1000, title = Some ''Physics'', plan_group_id = None\<rparr>
        ''pending'')
     (press ''approve_payment:5'')
   = (Inr (),
      \<lparr>plans = [\<lparr>plan_id = 2, price_cents = Some 1000, title = Some ''Physics'', plan_group_id = None\<rparr>],
       subscriptions = [], users = [\<lparr>user_id = 7, username = Some ''@ann''\<rparr>],
       manual_payments =
         [\<lparr>mp_id = 5, mp_user_id = 7, mp_plan_id = 2, amount_cents = Some 1000, status = ''pending'',
           admin_id = None, reviewed_ts = None, mp_payment_type = Some ''full''\<rparr>],
       calls = [AnswerCallbackQuery (ActivationFailed GroupNotSetText)]\<rparr>)"
  by code_simp

text \<open>
  Claim C8, amended. Let an administrator press a review button whose data
  carry the ticket number \<open>n\<close>. When no ticket \<open>n\<close> is pending, the handler only
  answers "not found or already processed" and changes no table. Rejecting a
  pending ticket sets the status of ticket \<open>n\<close> to \<^verbatim>\<open>rejected\<close> with the reviewer
  and the time, leaves the subscriptions alone and sends the user the
  rejection. Approving a pending ticket calls \<^verbatim>\<open>activate_subscription\<close> for the
  ticket's user and plan; when it returns success, the ticket becomes
  \<^verbatim>\<open>approved\<close>, the subscriptions are those the activation wrote and the user is
  sent the approval with the returned link; when it returns failure, nothing is
  written and only the administrator is told. Somebody who is not an
  administrator changes nothing. With unique ticket numbers, a ticket that is
  not pending is never changed.
\<close>

theorem payment_review_outcomes:
  assumes h: "handle_payment_review pf local_ts clk review_ts admins w call = (r, w')"
  defines "pending n \<equiv> find (\<lambda>m. mp_id m = n \<and> status m = ''pending'') (manual_payments w)"
  defines "reviewed st \<equiv> (\<lambda>m. m\<lparr>status := st, admin_id := Some (from_user_id call),
                                      reviewed_ts := Some review_ts\<rparr>)"
  shows "(from_user_id call \<notin> set admins \<longrightarrow>
            manual_payments w' = manual_payments w \<and> subscriptions w' = subscriptions w)
       \<and> (\<forall>n. from_user_id call \<in> set admins \<and> payment_id_of (data call) = Inr n
               \<and> (startswith (data call) ''approve_payment:'' \<or> startswith (data call) ''reject_payment:'')
               \<and> pending n = None \<longrightarrow>
             manual_payments w' = manual_payments w \<and> subscriptions w' = subscriptions w
             \<and> calls w' = calls w @ [AnswerCallbackQuery TicketNotFoundOrProcessed])
       \<and> (\<forall>n p. from_user_id call \<in> set admins \<and> payment_id_of (data call) = Inr n
               \<and> \<not> startswith (data call) ''approve_payment:'' \<and> startswith (data call) ''reject_payment:''
               \<and> pending n = Some p \<longrightarrow>
             manual_payments w' = update_mp n (reviewed ''rejected'') (manual_payments w)
             \<and> subscriptions w' = subscriptions w
             \<and> (\<exists>ti rest. calls w' = calls w @ SendMessage (mp_user_id p) (PaymentRejected ti)
                                                # AnswerCallbackQuery TicketRejected # rest))
       \<and> (\<forall>n p t w1. from_user_id call \<in> set admins \<and> payment_id_of (data call) = Inr n
               \<and> startswith (data call) ''approve_payment:'' \<and> pending n = Some p
               \<and> activate_subscription pf local_ts clk w (mp_user_id p) (mp_plan_id p)
                     (mp_payment_type p) None = (Inr (True, t), w1) \<longrightarrow>
             manual_payments w' = update_mp n (reviewed ''approved'') (manual_payments w)
             \<and> subscriptions w' = subscriptions w1
             \<and> (\<exists>ti rest. calls w' = calls w1 @ SendMessage (mp_user_id p) (PaymentApproved ti t)
                                                 # AnswerCallbackQuery TicketApproved # rest))
       \<and> (\<forall>n p t w1. from_user_id call \<in> set admins \<and> payment_id_of (data call) = Inr n
               \<and> startswith (data call) ''approve_payment:'' \<and> pending n = Some p
               \<and> activate_subscription pf local_ts clk w (mp_user_id p) (mp_plan_id p)
                     (mp_payment_type p) None = (Inr (False, t), w1) \<longrightarrow>
             w' = w\<lparr>calls := calls w @ [AnswerCallbackQuery (ActivationFailed t)]\<rparr>)
       \<and> (distinct (map mp_id (manual_payments w)) \<longrightarrow>
             length (manual_payments w') = length (manual_payments w)
             \<and> (\<forall>i<length (manual_payments w).
                   status (manual_payments w ! i) \<noteq> ''pending'' \<longrightarrow>
                   manual_payments w' ! i = manual_payments w ! i))"
proof -
  have not_admin: "manual_payments w' = manual_payments w \<and> subscriptions w' = subscriptions w"
    if na: "from_user_id call \<notin> set admins"
  proof (cases "startswith (data call) ''approve_payment:'' \<or> startswith (data call) ''reject_payment:''")
    case False
    from review_not_registered[OF this] h show ?thesis by simp
  next
    case True
    from review_not_admin[OF True na] h answer_only_calls(1,2) show ?thesis by metis
  qed
  have none: "manual_payments w' = manual_payments w \<and> subscriptions w' = subscriptions w
             \<and> calls w' = calls w @ [AnswerCallbackQuery TicketNotFoundOrProcessed]"
    if "from_user_id call \<in> set admins" "payment_id_of (data call) = Inr n"
      "startswith (data call) ''approve_payment:'' \<or> startswith (data call) ''reject_payment:''"
      "pending n = None" for n
    using review_not_pending[OF that(3,1,2) that(4)[unfolded pending_def]] h answer_only_calls
    by metis
  have rej: "manual_payments w' = update_mp n (reviewed ''rejected'') (manual_payments w)
             \<and> subscriptions w' = subscriptions w
             \<and> (\<exists>ti rest. calls w' = calls w @ SendMessage (mp_user_id p) (PaymentRejected ti)
                                                # AnswerCallbackQuery TicketRejected # rest)"
    if "from_user_id call \<in> set admins" "payment_id_of (data call) = Inr n"
      "\<not> startswith (data call) ''approve_payment:''" "startswith (data call) ''reject_payment:''"
      "pending n = Some p" for n p
    using review_reject[OF disjI2[OF that(4)] that(1,2) that(5)[unfolded pending_def] that(3) h]
    unfolding reviewed_def by blast
  have app: "manual_payments w' = update_mp n (reviewed ''approved'') (manual_payments w)
             \<and> subscriptions w' = subscriptions w1
             \<and> (\<exists>ti rest. calls w' = calls w1 @ SendMessage (mp_user_id p) (PaymentApproved ti t)
                                                 # AnswerCallbackQuery TicketApproved # rest)"
    if "from_user_id call \<in> set admins" "payment_id_of (data call) = Inr n"
      "startswith (data call) ''approve_payment:''" "pending n = Some p"
      "activate_subscription pf local_ts clk w (mp_user_id p) (mp_plan_id p)
                     (mp_payment_type p) None = (Inr (True, t), w1)" for n p t w1
    using review_approve[OF that(3,1,2) that(4)[unfolded pending_def] that(5) h]
    unfolding reviewed_def by blast
  have fail: "w' = w\<lparr>calls := calls w @ [AnswerCallbackQuery (ActivationFailed t)]\<rparr>"
    if "from_user_id call \<in> set admins" "payment_id_of (data call) = Inr n"
      "startswith (data call) ''approve_payment:''" "pending n = Some p"
      "activate_subscription pf local_ts clk w (mp_user_id p) (mp_plan_id p)
                     (mp_payment_type p) None = (Inr (False, t), w1)" for n p t w1
  proof -
    have w1: "w1 = w" using that(5) by (rule activate_subscription_failure)
    show ?thesis
      using h that(1,2,3) that(4)[unfolded pending_def] that(5)[unfolded w1]
      by (simp add: handle_payment_review_def Let_def answer_callback_query_def call_api_def
          split: prod.splits)
  qed
  have kept: "length (manual_payments w') = length (manual_payments w)
             \<and> (\<forall>i<length (manual_payments w).
                   status (manual_payments w ! i) \<noteq> ''pending'' \<longrightarrow>
                   manual_payments w' ! i = manual_payments w ! i)"
    if "distinct (map mp_id (manual_payments w))"
    using h that by (rule reviewed_tickets_kept)
  from not_admin none rej app fail kept show ?thesis by blast
qed


text \<open>A pending ticket of user 7 for the plan bound to group 500, approved by administrator 99.\<close>

theorem payment_review_outcomes_witness:
  "map status (manual_payments (snd (handle_payment_review (platform_up ''https://t.me/+new'') utc3_ts
       (clock_at (noon 2025 3 31) 1743411600) 1743411700 [99] (ticket_world maths_plan ''pending'')
       (press ''approve_payment:5''))))
   = [''approved'']
   \<and> map sub_user_id (subscriptions (snd (handle_payment_review (platform_up ''https://t.me/+new'') utc3_ts
       (clock_at (noon 2025 3 31) 1743411600) 1743411700 [99] (ticket_world maths_plan ''pending'')
       (press ''approve_payment:5''))))
   = [7]"
proof -
  let ?pf = "platform_up ''https://t.me/+new''"
  let ?clk = "clock_at (noon 2025 3 31) 1743411600"
  let ?w = "ticket_world maths_plan ''pending''"
  let ?call = "press ''approve_payment:5''"
  let ?p = "\<lparr>mp_id = 5, mp_user_id = 7, mp_plan_id = 1, amount_cents = Some 1000, status = ''pending'',
            admin_id = None, reviewed_ts = None, mp_payment_type = Some ''full''\<rparr>"
  let ?H = "handle_payment_review ?pf utc3_ts ?clk 1743411700 [99] ?w ?call"
  let ?A = "activate_subscription ?pf utc3_ts ?clk ?w (mp_user_id ?p) (mp_plan_id ?p) (mp_payment_type ?p) None"
  have h: "?H = (fst ?H, snd ?H)" by simp
  have adm: "from_user_id ?call \<in> set [99]" by code_simp
  have n: "payment_id_of (data ?call) = Inr 5" by code_simp
  have app: "startswith (data ?call) ''approve_payment:''" by code_simp
  have pend: "find (\<lambda>m. mp_id m = 5 \<and> status m = ''pending'') (manual_payments ?w) = Some ?p"
    by code_simp
  have "fst ?A = Inr (True, InviteLink (Some ''https://t.me/+new''))" by code_simp
  then have a: "?A = (Inr (True, InviteLink (Some ''https://t.me/+new'')), snd ?A)"
    by (simp add: prod_eq_iff)
  note t = payment_review_outcomes[OF h, THEN conjunct2, THEN conjunct2, THEN conjunct2, THEN conjunct1,
      rule_format, of 5 ?p "InviteLink (Some ''https://t.me/+new'')" "snd ?A"]
  from t adm n app pend a
  have m: "manual_payments (snd ?H)
           = update_mp 5 (\<lambda>m. m\<lparr>status := ''approved'', admin_id := Some (from_user_id ?call),
                                  reviewed_ts := Some 1743411700\<rparr>) (manual_payments ?w)"
    and s: "subscriptions (snd ?H) = subscriptions (snd ?A)"
    by blast+
  have "map status (update_mp 5 (\<lambda>m. m\<lparr>status := ''approved'', admin_id := Some (from_user_id ?call),
                                  reviewed_ts := Some 1743411700\<rparr>) (manual_payments ?w)) = [''approved'']"
    by code_simp
  moreover have "map sub_user_id (subscriptions (snd ?A)) = [7]" by code_simp
  ultimately show ?thesis unfolding m s by simp
qed

section \<open>The removal sweep spares paid subscriptions\<close>










section \<open>Activation: the end of validity\<close>



















end
